theory Spec2Isabelle
  imports Main
begin

section \<open>One-time codes: generation\<close>

text \<open>
  The auth routes draw a one-time code with
  \<^verbatim>\<open>crypto.randomInt(100000, 999999).toString()\<close>.
  Node's \<^verbatim>\<open>crypto.randomInt(min, max)\<close> returns an integer \<open>n\<close> with
  \<open>min \<le> n < max\<close>: the lower bound is inclusive, the upper bound exclusive. It reduces
  an accepted draw of the secure random source modulo the width of the range and adds
  \<open>min\<close>. The draw is the only input of the generator, so it is a parameter here. The
  one call site passes constants with \<open>min < max\<close>, the case in which Node does not throw.
\<close>

definition randomInt :: "nat \<Rightarrow> nat \<Rightarrow> nat \<Rightarrow> nat" where
  "randomInt lo hi draw = lo + draw mod (hi - lo)"

text \<open>\<^verbatim>\<open>Number.prototype.toString()\<close> on a non-negative integer: its decimal digits.\<close>

definition digit_char :: "nat \<Rightarrow> char" where
  "digit_char d = ''0123456789'' ! d"

fun toString :: "nat \<Rightarrow> string" where
  "toString n = (if n < 10 then [digit_char n] else toString (n div 10) @ [digit_char (n mod 10)])"

declare toString.simps [simp del]

definition generateTwoFactorCode :: "nat \<Rightarrow> string" where
  "generateTwoFactorCode draw = toString (randomInt 100000 999999 draw)"

section \<open>Documents\<close>

text \<open>
  A document id is compared and looked up as its string form
  (\<^verbatim>\<open>req.params.id === req.user._id.toString()\<close>), so ids are strings here. The
  fields of an account are the ones the routes read and write on a \<^verbatim>\<open>User\<close>
  document. A string field of a request body that is absent is the empty string: the
  routes only test such fields for truthiness.
\<close>

type_synonym object_id = string

record User =
  uid :: object_id
  name :: string
  email :: string
  password :: string
  role :: string
  permissions :: "string list"
  twoFactorEnabled :: bool
  lastLogin :: "int option"

datatype code_type = login_code | enable_2fa | disable_2fa

text \<open>
  \<^verbatim>\<open>twoFactorAuthSchema\<close>: times are milliseconds since the epoch. A document's
  \<^verbatim>\<open>_id\<close> is its position in the collection, which only grows.
\<close>

record TwoFactorAuth =
  user :: object_id
  code :: string
  expiresAt :: int
  isUsed :: bool
  type :: code_type

datatype body =
    Message string
  | RequiresTwoFactor string
  | InsufficientPermissions string string string
  | InsufficientRole string "string list" string
  | Session object_id string string string "string list" bool string
  | UserDoc User

datatype response = Response (status: nat) (body: body)

section \<open>Collections\<close>

definition findById :: "User list \<Rightarrow> object_id \<Rightarrow> User option" where
  "findById us i = find (\<lambda>u. uid u = i) us"

definition findOne_email :: "User list \<Rightarrow> string \<Rightarrow> User option" where
  "findOne_email us e = find (\<lambda>u. email u = e) us"

fun findByIdAndUpdate :: "object_id \<Rightarrow> (User \<Rightarrow> User) \<Rightarrow> User list \<Rightarrow> User list" where
  "findByIdAndUpdate i f [] = []"
| "findByIdAndUpdate i f (u # us) =
     (if uid u = i then f u # us else u # findByIdAndUpdate i f us)"

fun findByIdAndDelete :: "object_id \<Rightarrow> User list \<Rightarrow> User list" where
  "findByIdAndDelete i [] = []"
| "findByIdAndDelete i (u # us) =
     (if uid u = i then us else u # findByIdAndDelete i us)"

definition select_no_password :: "User \<Rightarrow> User" where
  "select_no_password u = u\<lparr>password := []\<rparr>"

text \<open>
  The filter of every code lookup:
  \<^verbatim>\<open>{ user, code, type, isUsed: false, expiresAt: { $gt: new Date() } }\<close>.
\<close>

definition matches_query :: "object_id \<Rightarrow> string \<Rightarrow> code_type \<Rightarrow> int \<Rightarrow> TwoFactorAuth \<Rightarrow> bool" where
  "matches_query u c t now r \<longleftrightarrow>
     user r = u \<and> code r = c \<and> type r = t \<and> isUsed r = False \<and> expiresAt r > now"

fun find_index :: "('a \<Rightarrow> bool) \<Rightarrow> 'a list \<Rightarrow> nat option" where
  "find_index P [] = None"
| "find_index P (x # xs) = (if P x then Some 0 else map_option Suc (find_index P xs))"

definition TwoFactorAuth_findOne ::
  "object_id \<Rightarrow> string \<Rightarrow> code_type \<Rightarrow> int \<Rightarrow> TwoFactorAuth list \<Rightarrow> nat option" where
  "TwoFactorAuth_findOne u c t now docs = find_index (matches_query u c t now) docs"

text \<open>
  \<^verbatim>\<open>TwoFactorAuth.create({ user, code, type })\<close>: the schema defaults give
  \<^verbatim>\<open>expiresAt = Date.now() + 10 * 60 * 1000\<close> and \<^verbatim>\<open>isUsed = false\<close>.
\<close>

definition TwoFactorAuth_create ::
  "int \<Rightarrow> object_id \<Rightarrow> string \<Rightarrow> code_type \<Rightarrow> TwoFactorAuth list \<Rightarrow> TwoFactorAuth list" where
  "TwoFactorAuth_create now u c t docs =
     docs @ [\<lparr>user = u, code = c, expiresAt = now + 10 * 60 * 1000, isUsed = False, type = t\<rparr>]"

text \<open>\<^verbatim>\<open>twoFactorRecord.isUsed = true; await twoFactorRecord.save()\<close> on the document found.\<close>

definition save_isUsed :: "nat \<Rightarrow> TwoFactorAuth list \<Rightarrow> TwoFactorAuth list" where
  "save_isUsed i docs = (if i < length docs then docs[i := (docs ! i)\<lparr>isUsed := True\<rparr>] else docs)"

section \<open>Authorization middleware\<close>

definition rolePermissions :: "string \<Rightarrow> string list option" where
  "rolePermissions = map_of
     [(''user'',
        [''inventory:read'', ''inventory:write'', ''waste:read'', ''waste:write'']),
      (''manager'',
        [''inventory:read'', ''inventory:write'', ''inventory:delete'', ''waste:read'',
         ''waste:write'', ''waste:delete'', ''analytics:read'', ''users:read'']),
      (''admin'',
        [''inventory:read'', ''inventory:write'', ''inventory:delete'', ''waste:read'',
         ''waste:write'', ''waste:delete'', ''analytics:read'', ''users:read'',
         ''users:write'', ''users:delete'', ''settings:write''])]"

text \<open>\<^verbatim>\<open>rolePermissions[user.role] || []\<close>.\<close>

definition rolePermissions_or_empty :: "string \<Rightarrow> string list" where
  "rolePermissions_or_empty r = (case rolePermissions r of Some ps \<Rightarrow> ps | None \<Rightarrow> [])"

text \<open>
  A middleware either answers (\<open>Some\<close> response) or calls \<^verbatim>\<open>next()\<close> (\<open>None\<close>).
  \<open>req_user\<close> is \<^verbatim>\<open>req.user\<close> as the \<^verbatim>\<open>protect\<close> middleware left it.
\<close>

definition requirePermission :: "string \<Rightarrow> User option \<Rightarrow> User list \<Rightarrow> response option" where
  "requirePermission permission req_user us =
     (case req_user of
        None \<Rightarrow> Some (Response 401 (Message ''Authentication required''))
      | Some ru \<Rightarrow>
          (case findById us (uid ru) of
             None \<Rightarrow> Some (Response 401 (Message ''User not found''))
           | Some usr \<Rightarrow>
               (let userRolePermissions = rolePermissions_or_empty (role usr);
                    hasRolePermission = (permission \<in> set userRolePermissions);
                    hasCustomPermission = (permission \<in> set (permissions usr))
                in if \<not> hasRolePermission \<and> \<not> hasCustomPermission
                   then Some (Response 403
                          (InsufficientPermissions ''Insufficient permissions'' permission (role usr)))
                   else None)))"

text \<open>
  The spec's \<open>effectivePermissions(account)\<close>: the role table's entry for the account's
  role united with the account's custom permissions.
\<close>

definition effectivePermissions :: "User \<Rightarrow> string set" where
  "effectivePermissions u =
     (case rolePermissions (role u) of None \<Rightarrow> {} | Some ps \<Rightarrow> set ps) \<union> set (permissions u)"

datatype roles_arg = Role string | Roles "string list"

definition requireRole :: "roles_arg \<Rightarrow> User option \<Rightarrow> User list \<Rightarrow> response option" where
  "requireRole roles req_user us =
     (case req_user of
        None \<Rightarrow> Some (Response 401 (Message ''Authentication required''))
      | Some ru \<Rightarrow>
          (case findById us (uid ru) of
             None \<Rightarrow> Some (Response 401 (Message ''User not found''))
           | Some usr \<Rightarrow>
               (let allowedRoles = (case roles of Roles rs \<Rightarrow> rs | Role r \<Rightarrow> [r])
                in if role usr \<notin> set allowedRoles
                   then Some (Response 403
                          (InsufficientRole ''Insufficient role permissions'' allowedRoles (role usr)))
                   else None)))"

section \<open>User administration routes\<close>

text \<open>
  The guards of the two routes below compare \<^verbatim>\<open>req.params.id\<close> with
  \<^verbatim>\<open>req.user._id.toString()\<close> as strings, but the store calls
  (\<^verbatim>\<open>findByIdAndUpdate\<close>, \<^verbatim>\<open>findByIdAndDelete\<close>) take the raw path id and
  Mongoose casts it to an ObjectId first. A string of 24 hexadecimal digits, in either
  case, denotes the id whose \<^verbatim>\<open>toString()\<close> is the same digits in lower case; any
  other string is a \<^verbatim>\<open>CastError\<close>, which the handler's \<^verbatim>\<open>catch\<close> answers with
  500.
\<close>

definition hex_digits :: string where
  "hex_digits = ''0123456789abcdefABCDEF''"

definition lower_hex :: "char \<Rightarrow> char" where
  "lower_hex c = (case map_of (zip ''ABCDEF'' ''abcdef'') c of Some d \<Rightarrow> d | None \<Rightarrow> c)"

definition castObjectId :: "string \<Rightarrow> object_id option" where
  "castObjectId s =
     (if length s = 24 \<and> list_all (\<lambda>c. c \<in> set hex_digits) s
      then Some (map lower_hex s) else None)"

definition validRoles :: "string list" where
  "validRoles = [''user'', ''manager'', ''admin'']"

text \<open>
  \<^verbatim>\<open>PUT /api/users/:id/role\<close>. \<open>new_role\<close> is \<^verbatim>\<open>req.body.role\<close> (empty when
  absent), \<open>new_permissions\<close> is \<^verbatim>\<open>req.body.permissions\<close>. Reading
  \<^verbatim>\<open>req.user._id\<close> with no \<^verbatim>\<open>req.user\<close> throws, which the handler's
  \<^verbatim>\<open>catch\<close> answers with 500.
\<close>

definition put_role_handler ::
  "string \<Rightarrow> User option \<Rightarrow> string \<Rightarrow> string list option \<Rightarrow> User list \<Rightarrow> response \<times> User list" where
  "put_role_handler params_id req_user new_role new_permissions us =
     (if new_role \<noteq> [] \<and> new_role \<notin> set validRoles
      then (Response 400 (Message ''Invalid role''), us)
      else
        (case req_user of
           None \<Rightarrow> (Response 500 (Message ''Server error''), us)
         | Some ru \<Rightarrow>
             if params_id = uid ru \<and> new_role \<noteq> [] \<and> new_role \<noteq> ''admin''
             then (Response 400 (Message ''Cannot change your own admin role''), us)
             else
               (let updateData = (\<lambda>u.
                      (let u1 = (if new_role \<noteq> [] then u\<lparr>role := new_role\<rparr> else u)
                       in case new_permissions of
                            None \<Rightarrow> u1
                          | Some ps \<Rightarrow> u1\<lparr>permissions := ps\<rparr>))
                in case castObjectId params_id of
                     None \<Rightarrow> (Response 500 (Message ''Server error''), us)
                   | Some i \<Rightarrow>
                       (case findById us i of
                          None \<Rightarrow> (Response 404 (Message ''User not found''), us)
                        | Some u \<Rightarrow>
                            (Response 200 (UserDoc (select_no_password (updateData u))),
                             findByIdAndUpdate i updateData us)))))"

definition put_role ::
  "string \<Rightarrow> User option \<Rightarrow> string \<Rightarrow> string list option \<Rightarrow> User list \<Rightarrow> response \<times> User list" where
  "put_role params_id req_user new_role new_permissions us =
     (case requireRole (Role ''admin'') req_user us of
        Some r \<Rightarrow> (r, us)
      | None \<Rightarrow> put_role_handler params_id req_user new_role new_permissions us)"

text \<open>\<^verbatim>\<open>DELETE /api/users/:id\<close>.\<close>

definition delete_user_handler :: "string \<Rightarrow> User option \<Rightarrow> User list \<Rightarrow> response \<times> User list" where
  "delete_user_handler params_id req_user us =
     (case req_user of
        None \<Rightarrow> (Response 500 (Message ''Server error''), us)
      | Some ru \<Rightarrow>
          if params_id = uid ru
          then (Response 400 (Message ''Cannot delete your own account''), us)
          else
            (case castObjectId params_id of
               None \<Rightarrow> (Response 500 (Message ''Server error''), us)
             | Some i \<Rightarrow>
                 (case findById us i of
                    None \<Rightarrow> (Response 404 (Message ''User not found''), us)
                  | Some u \<Rightarrow>
                      (Response 200 (Message ''User deleted successfully''),
                       findByIdAndDelete i us))))"

definition delete_user :: "string \<Rightarrow> User option \<Rightarrow> User list \<Rightarrow> response \<times> User list" where
  "delete_user params_id req_user us =
     (case requireRole (Role ''admin'') req_user us of
        Some r \<Rightarrow> (r, us)
      | None \<Rightarrow> delete_user_handler params_id req_user us)"

section \<open>Authentication routes\<close>

text \<open>
  The state the routes share: the two collections and, as \<open>calls\<close>, the operations a
  handler has awaited on the stores and on the mailer, in order.
\<close>

datatype call =
    User_findOne string
  | User_save object_id
  | User_findByIdAndUpdate object_id
  | TwoFactorAuth_create_call object_id string code_type
  | TwoFactorAuth_findOne_call object_id string code_type
  | TwoFactorAuth_save nat
  | sendTwoFactorCode string string code_type

record db =
  users :: "User list"
  twoFactorAuths :: "TwoFactorAuth list"
  calls :: "call list"

text \<open>
  What a handler takes from its collaborators: \<^verbatim>\<open>user.matchPassword\<close> of the
  User model, \<^verbatim>\<open>generateToken\<close>'s signer, the clock, the draw of the random source,
  and whether the mailer's promise resolves (a rejection is caught and answered with 500).
\<close>

record env =
  matchPassword :: "User \<Rightarrow> string \<Rightarrow> bool"
  generateToken :: "object_id \<Rightarrow> string"
  clock :: int
  entropy :: nat
  mail_ok :: bool

definition called :: "call \<Rightarrow> db \<Rightarrow> db" where
  "called c s = s\<lparr>calls := calls s @ [c]\<rparr>"

text \<open>The step shared by the three flows when no code came with the request.\<close>

definition issue_code :: "env \<Rightarrow> User \<Rightarrow> code_type \<Rightarrow> body \<Rightarrow> db \<Rightarrow> response \<times> db" where
  "issue_code e usr t ok s =
     (let c = generateTwoFactorCode (entropy e);
          s1 = called (TwoFactorAuth_create_call (uid usr) c t)
                 (s\<lparr>twoFactorAuths := TwoFactorAuth_create (clock e) (uid usr) c t (twoFactorAuths s)\<rparr>);
          s2 = called (sendTwoFactorCode (email usr) c t) s1
      in if mail_ok e then (Response 200 ok, s2)
         else (Response 500 (Message ''Server error''), s2))"

text \<open>\<^verbatim>\<open>POST /api/auth/login\<close>.\<close>

definition login :: "env \<Rightarrow> string \<Rightarrow> string \<Rightarrow> string \<Rightarrow> db \<Rightarrow> response \<times> db" where
  "login e req_email req_password twoFactorCode s =
     (if req_email = [] \<or> req_password = []
      then (Response 400 (Message ''Please provide email and password''), s)
      else
        (let s1 = called (User_findOne req_email) s
         in case findOne_email (users s) req_email of
              None \<Rightarrow> (Response 401 (Message ''Invalid email or password''), s1)
            | Some usr \<Rightarrow>
                if \<not> matchPassword e usr req_password
                then (Response 401 (Message ''Invalid email or password''), s1)
                else
                  (let finish = (\<lambda>s'.
                         (Response 200
                            (Session (uid usr) (name usr) (email usr) (role usr) (permissions usr)
                               (twoFactorEnabled usr) (generateToken e (uid usr))),
                          called (User_save (uid usr))
                            (s'\<lparr>users := findByIdAndUpdate (uid usr)
                                  (\<lambda>u. u\<lparr>lastLogin := Some (clock e)\<rparr>) (users s')\<rparr>)))
                   in if twoFactorEnabled usr
                      then
                        (if twoFactorCode = []
                         then issue_code e usr login_code
                                (RequiresTwoFactor ''Two-factor authentication code sent to your email'') s1
                         else
                           (let s2 = called (TwoFactorAuth_findOne_call (uid usr) twoFactorCode login_code) s1
                            in case TwoFactorAuth_findOne (uid usr) twoFactorCode login_code (clock e)
                                      (twoFactorAuths s) of
                                 None \<Rightarrow>
                                   (Response 400 (Message ''Invalid or expired verification code''), s2)
                               | Some i \<Rightarrow>
                                   finish (called (TwoFactorAuth_save i)
                                     (s2\<lparr>twoFactorAuths := save_isUsed i (twoFactorAuths s2)\<rparr>))))
                      else finish s1)))"

text \<open>
  \<^verbatim>\<open>POST /api/auth/enable-2fa\<close> and \<^verbatim>\<open>POST /api/auth/disable-2fa\<close>, behind
  \<^verbatim>\<open>protect\<close>: \<open>ru\<close> is \<^verbatim>\<open>req.user\<close>. The two handlers differ in the flow type, the
  flag value and the success message only.
\<close>

definition toggle_2fa ::
  "code_type \<Rightarrow> bool \<Rightarrow> string \<Rightarrow> env \<Rightarrow> User \<Rightarrow> string \<Rightarrow> db \<Rightarrow> response \<times> db" where
  "toggle_2fa t flag done e ru req_code s =
     (if req_code = []
      then issue_code e ru t (Message ''Verification code sent to your email'') s
      else
        (let s1 = called (TwoFactorAuth_findOne_call (uid ru) req_code t) s
         in case TwoFactorAuth_findOne (uid ru) req_code t (clock e) (twoFactorAuths s) of
              None \<Rightarrow> (Response 400 (Message ''Invalid or expired verification code''), s1)
            | Some i \<Rightarrow>
                (let s2 = called (User_findByIdAndUpdate (uid ru))
                            (s1\<lparr>users := findByIdAndUpdate (uid ru)
                                   (\<lambda>u. u\<lparr>twoFactorEnabled := flag\<rparr>) (users s1)\<rparr>);
                     s3 = called (TwoFactorAuth_save i)
                            (s2\<lparr>twoFactorAuths := save_isUsed i (twoFactorAuths s2)\<rparr>)
                 in (Response 200 (Message done), s3))))"







definition token_of :: "response \<Rightarrow> string option" where
  "token_of r = (case body r of Session i n m ro ps tf tok \<Rightarrow> Some tok | _ \<Rightarrow> None)"

section \<open>Two verifications in flight\<close>

text \<open>
  A handler runs until its next \<^verbatim>\<open>await\<close>, so between the lookup
  (\<^verbatim>\<open>await TwoFactorAuth.findOne\<close>) and the write (\<^verbatim>\<open>await twoFactorRecord.save()\<close>)
  of one request the steps of another may run. A verification is therefore a two-step
  machine over the shared collection: before the lookup, between lookup and write, and
  finished (verified, or rejected with the invalid-or-expired answer).
\<close>

datatype attempt = Lookup | Found nat | Verified | Rejected

fun attempt_step ::
  "object_id \<Rightarrow> string \<Rightarrow> code_type \<Rightarrow> int \<Rightarrow> attempt \<Rightarrow> TwoFactorAuth list
     \<Rightarrow> attempt \<times> TwoFactorAuth list" where
  "attempt_step u c t tm Lookup docs =
     (case TwoFactorAuth_findOne u c t tm docs of
        None \<Rightarrow> (Rejected, docs)
      | Some i \<Rightarrow> (Found i, docs))"
| "attempt_step u c t tm (Found i) docs = (Verified, save_isUsed i docs)"
| "attempt_step u c t tm Verified docs = (Verified, docs)"
| "attempt_step u c t tm Rejected docs = (Rejected, docs)"

text \<open>
  A schedule says, step by step, which of the two requests runs next (\<open>True\<close>: the
  first) and what time the clock shows. Both requests carry the same account, code and
  flow type.
\<close>

fun interleave ::
  "object_id \<Rightarrow> string \<Rightarrow> code_type \<Rightarrow> (bool \<times> int) list
     \<Rightarrow> attempt \<times> attempt \<times> TwoFactorAuth list \<Rightarrow> attempt \<times> attempt \<times> TwoFactorAuth list" where
  "interleave u c t [] st = st"
| "interleave u c t ((first, tm) # sched) (a1, a2, docs) =
     (if first
      then (case attempt_step u c t tm a1 docs of
              (a1', docs') \<Rightarrow> interleave u c t sched (a1', a2, docs'))
      else (case attempt_step u c t tm a2 docs of
              (a2', docs') \<Rightarrow> interleave u c t sched (a1, a2', docs')))"

text \<open>The record at position \<open>k\<close> exists and is marked used.\<close>

definition used_at :: "nat \<Rightarrow> TwoFactorAuth list \<Rightarrow> bool" where
  "used_at k docs \<longleftrightarrow> k < length docs \<and> isUsed (docs ! k)"

section \<open>Sample data\<close>

definition alice :: User where
  "alice = \<lparr>uid = ''a1'', name = ''Alice'', email = ''alice@example.com'', password = ''hash-pw1'',
     role = ''user'', permissions = [''users:read''], twoFactorEnabled = True, lastLogin = None\<rparr>"

definition root :: User where
  "root = \<lparr>uid = ''r0'', name = ''Root'', email = ''root@example.com'', password = ''hash-pw0'',
     role = ''admin'', permissions = [], twoFactorEnabled = False, lastLogin = None\<rparr>"

definition chef :: User where
  "chef = \<lparr>uid = ''64b0c0ffee00000000000ad0'', name = ''Chef'', email = ''chef@example.com'',
     password = ''hash-pw2'', role = ''admin'', permissions = [], twoFactorEnabled = False,
     lastLogin = None\<rparr>"


definition sample_env :: env where
  "sample_env = \<lparr>matchPassword = (\<lambda>u p. password u = ''hash-'' @ p),
     generateToken = (\<lambda>i. ''token-'' @ i), clock = 1000, entropy = 23456, mail_ok = True\<rparr>"

definition alice_code :: "int \<Rightarrow> bool \<Rightarrow> TwoFactorAuth" where
  "alice_code expires used =
     \<lparr>user = ''a1'', code = ''123456'', expiresAt = expires, isUsed = used, type = login_code\<rparr>"

definition sample_db :: "TwoFactorAuth list \<Rightarrow> db" where
  "sample_db docs = \<lparr>users = [alice, root], twoFactorAuths = docs, calls = []\<rparr>"

section \<open>Verification\<close>

lemma randomInt_bounds:
  "lo < hi \<Longrightarrow> lo \<le> randomInt lo hi draw \<and> randomInt lo hi draw < hi"
proof -
  assume lt: "lo < hi"
  then have "draw mod (hi - lo) < hi - lo" by simp
  with lt show ?thesis unfolding randomInt_def by linarith
qed

lemma toString_length:
  "10 ^ k \<le> n \<Longrightarrow> n < 10 ^ Suc k \<Longrightarrow> length (toString n) = Suc k"
proof (induction k arbitrary: n)
  case 0
  then show ?case by (simp add: toString.simps [of n])
next
  case (Suc k)
  have pos: "(1::nat) \<le> 10 ^ k" by simp
  from Suc.prems(1) have "10 * 10 ^ k \<le> n" by simp
  with pos have big: "\<not> n < 10" by linarith
  from Suc.prems have lo: "10 ^ k \<le> n div 10" and hi: "n div 10 < 10 ^ Suc k"
    by (simp_all add: less_mult_imp_div_less mult.commute)
  from Suc.IH [OF lo hi] big show ?case
    by (simp add: toString.simps [of n])
qed

lemma digit_char_inj: "a < 10 \<Longrightarrow> b < 10 \<Longrightarrow> digit_char a = digit_char b \<Longrightarrow> a = b"
proof -
  assume a: "a < 10" and b: "b < 10" and eq: "digit_char a = digit_char b"
  have d: "distinct ''0123456789''" by simp
  from a b eq d show ?thesis
    unfolding digit_char_def by (simp add: nth_eq_iff_index_eq)
qed

lemma toString_not_Nil: "toString n \<noteq> []"
  by (simp add: toString.simps [of n])

lemma toString_inj: "toString m = toString n \<Longrightarrow> m = n"
proof (induction m arbitrary: n rule: toString.induct)
  case (1 m)
  show ?case
  proof (cases "m < 10")
    case True
    with "1.prems" have single: "toString n = [digit_char m]"
      by (simp add: toString.simps [of m])
    have small: "n < 10"
    proof (rule ccontr)
      assume "\<not> n < 10"
      with single have "toString (n div 10) @ [digit_char (n mod 10)] = [digit_char m]"
        by (simp add: toString.simps [of n])
      then show False by (simp add: toString_not_Nil)
    qed
    with single have "digit_char n = digit_char m"
      by (simp add: toString.simps [of n])
    with True small show ?thesis by (metis digit_char_inj)
  next
    case False
    with "1.prems" have long: "toString n = toString (m div 10) @ [digit_char (m mod 10)]"
      by (simp add: toString.simps [of m])
    have big: "\<not> n < 10"
    proof
      assume "n < 10"
      with long have "[digit_char n] = toString (m div 10) @ [digit_char (m mod 10)]"
        by (simp add: toString.simps [of n])
      then show False by (simp add: toString_not_Nil Cons_eq_append_conv)
    qed
    with long have parts: "toString (n div 10) = toString (m div 10)"
        "digit_char (n mod 10) = digit_char (m mod 10)"
      by (simp_all add: toString.simps [of n])
    from "1.IH" [OF False] parts(1) have "m div 10 = n div 10" by simp
    moreover from parts(2) have "n mod 10 = m mod 10"
      by (intro digit_char_inj) simp_all
    ultimately show ?thesis by (metis div_mult_mod_eq)
  qed
qed

lemma toString_999999: "toString 999999 = ''999999''"
  by (simp add: toString.simps digit_char_def)

text \<open>
  C1. Every generated code is a decimal string of exactly six digits whose value lies in
  \<open>[100000, 999998]\<close>: the lower endpoint 100000 is attained, but the exclusive upper bound
  of \<^verbatim>\<open>randomInt\<close> makes 999998 the largest value, so the code 999999 is never
  generated, whatever the draw.
\<close>

theorem generateTwoFactorCode_range:
  "100000 \<le> randomInt 100000 999999 draw \<and> randomInt 100000 999999 draw \<le> 999998
   \<and> length (generateTwoFactorCode draw) = 6
   \<and> generateTwoFactorCode draw \<noteq> ''999999''
   \<and> generateTwoFactorCode 0 = ''100000''
   \<and> generateTwoFactorCode 899998 = ''999998''"
proof -
  have b: "100000 \<le> randomInt 100000 999999 draw \<and> randomInt 100000 999999 draw < 999999"
    by (rule randomInt_bounds) simp
  then have len: "length (toString (randomInt 100000 999999 draw)) = Suc 5"
    by (intro toString_length) simp_all
  have ne: "toString (randomInt 100000 999999 draw) \<noteq> ''999999''"
  proof
    assume "toString (randomInt 100000 999999 draw) = ''999999''"
    then have "toString (randomInt 100000 999999 draw) = toString 999999"
      by (simp only: toString_999999)
    then have "randomInt 100000 999999 draw = 999999" by (rule toString_inj)
    with b show False by simp
  qed
  have low: "generateTwoFactorCode 0 = ''100000''"
    by (simp add: generateTwoFactorCode_def randomInt_def toString.simps digit_char_def)
  have high: "generateTwoFactorCode 899998 = ''999998''"
    by (simp add: generateTwoFactorCode_def randomInt_def toString.simps digit_char_def)
  from b len ne low high show ?thesis
    by (simp add: generateTwoFactorCode_def)
qed

subsection \<open>The authorization gate\<close>

text \<open>
  C6. For the account \<^verbatim>\<open>requirePermission\<close> loads for the requester, the check calls
  \<^verbatim>\<open>next()\<close> exactly when the required permission is in the union of the role table's
  entry for the account's role and the account's custom permissions; otherwise it answers
  403 with the required permission and the account's role.
\<close>

theorem requirePermission_iff_effective:
  assumes "findById us (uid ru) = Some usr"
  shows "requirePermission p (Some ru) us =
     (if p \<in> effectivePermissions usr then None
      else Some (Response 403 (InsufficientPermissions ''Insufficient permissions'' p (role usr))))"
  using assms
  by (simp add: requirePermission_def effectivePermissions_def rolePermissions_or_empty_def
      split: option.splits)

theorem requirePermission_iff_effective_witness:
  "findById [alice, root] (uid alice) = Some alice
   \<and> requirePermission ''users:write'' (Some alice) [alice, root]
       = Some (Response 403 (InsufficientPermissions ''Insufficient permissions'' ''users:write'' ''user''))
   \<and> requirePermission ''users:read'' (Some alice) [alice, root] = None"
proof -
  have h: "findById [alice, root] (uid alice) = Some alice"
    by (simp add: findById_def alice_def)
  have no: "''users:write'' \<notin> effectivePermissions alice"
    by (simp add: effectivePermissions_def rolePermissions_def alice_def)
  have yes: "''users:read'' \<in> effectivePermissions alice"
    by (simp add: effectivePermissions_def rolePermissions_def alice_def)
  have r: "role alice = ''user''" by (simp add: alice_def)
  from requirePermission_iff_effective [OF h, of "''users:write''"]
       requirePermission_iff_effective [OF h, of "''users:read''"] h no yes r
  show ?thesis by simp
qed

text \<open>
  C7. The role table grows along user, manager, admin: the manager entry is the user entry
  plus inventory:delete, waste:delete, analytics:read and users:read; the admin entry is
  the manager entry plus users:write, users:delete and settings:write; and every custom
  permission of an account is effective and passes the check, whatever the role.
\<close>

theorem rolePermissions_monotone:
  "set (rolePermissions_or_empty ''user'')
     = {''inventory:read'', ''inventory:write'', ''waste:read'', ''waste:write''}
   \<and> set (rolePermissions_or_empty ''manager'')
     = set (rolePermissions_or_empty ''user'')
       \<union> {''inventory:delete'', ''waste:delete'', ''analytics:read'', ''users:read''}
   \<and> set (rolePermissions_or_empty ''admin'')
     = set (rolePermissions_or_empty ''manager'')
       \<union> {''users:write'', ''users:delete'', ''settings:write''}
   \<and> (\<forall>us ru usr p. findById us (uid ru) = Some usr \<longrightarrow> p \<in> set (permissions usr)
         \<longrightarrow> p \<in> effectivePermissions usr \<and> requirePermission p (Some ru) us = None)"
proof -
  have u: "set (rolePermissions_or_empty ''user'')
     = {''inventory:read'', ''inventory:write'', ''waste:read'', ''waste:write''}"
    by (simp add: rolePermissions_or_empty_def rolePermissions_def)
  have m: "set (rolePermissions_or_empty ''manager'')
     = set (rolePermissions_or_empty ''user'')
       \<union> {''inventory:delete'', ''waste:delete'', ''analytics:read'', ''users:read''}"
    unfolding rolePermissions_or_empty_def rolePermissions_def by (simp add: insert_commute)
  have a: "set (rolePermissions_or_empty ''admin'')
     = set (rolePermissions_or_empty ''manager'')
       \<union> {''users:write'', ''users:delete'', ''settings:write''}"
    unfolding rolePermissions_or_empty_def rolePermissions_def by (simp add: insert_commute)
  have c: "\<forall>us ru usr p. findById us (uid ru) = Some usr \<longrightarrow> p \<in> set (permissions usr)
         \<longrightarrow> p \<in> effectivePermissions usr \<and> requirePermission p (Some ru) us = None"
    by (simp add: requirePermission_def effectivePermissions_def)
  from u m a c show ?thesis by blast
qed

theorem rolePermissions_monotone_witness:
  "findById [alice, root] (uid alice) = Some alice
   \<and> ''users:read'' \<in> set (permissions alice)
   \<and> ''users:read'' \<notin> set (rolePermissions_or_empty (role alice))
   \<and> requirePermission ''users:read'' (Some alice) [alice, root] = None"
proof -
  have h: "findById [alice, root] (uid alice) = Some alice"
    by (simp add: findById_def alice_def)
  have c: "''users:read'' \<in> set (permissions alice)"
    by (simp add: alice_def)
  have n: "''users:read'' \<notin> set (rolePermissions_or_empty (role alice))"
    by (simp add: rolePermissions_or_empty_def rolePermissions_def alice_def)
  from rolePermissions_monotone h c
  have "requirePermission ''users:read'' (Some alice) [alice, root] = None"
    by blast
  with h c n show ?thesis by simp
qed

subsection \<open>Login\<close>

lemma find_index_None: "find_index P xs = None \<longleftrightarrow> (\<forall>x\<in>set xs. \<not> P x)"
  by (induction xs) auto

lemma find_index_Some:
  "find_index P xs = Some i \<Longrightarrow> i < length xs \<and> P (xs ! i)"
proof (induction xs arbitrary: i)
  case Nil
  then show ?case by simp
next
  case (Cons x xs)
  show ?case
  proof (cases "P x")
    case True
    with Cons.prems show ?thesis by simp
  next
    case False
    with Cons.prems obtain j where j: "find_index P xs = Some j" "i = Suc j" by auto
    from Cons.IH [OF j(1)] j(2) show ?thesis by simp
  qed
qed

lemma login_rejects_code:
  assumes "m \<noteq> []" "p \<noteq> []" "findOne_email (users s) m = Some usr" "matchPassword e usr p"
    "twoFactorEnabled usr" "c \<noteq> []"
    "TwoFactorAuth_findOne (uid usr) c login_code (clock e) (twoFactorAuths s) = None"
  shows "login e m p c s =
     (Response 400 (Message ''Invalid or expired verification code''),
      called (TwoFactorAuth_findOne_call (uid usr) c login_code) (called (User_findOne m) s))"
  using assms by (simp add: login_def Let_def)

lemma login_rejects_input:
  "m = [] \<or> p = [] \<Longrightarrow>
     login e m p c s = (Response 400 (Message ''Please provide email and password''), s)"
  by (simp add: login_def)

lemma login_rejects_credentials:
  assumes "m \<noteq> []" "p \<noteq> []"
    "findOne_email (users s) m = None \<or> (\<exists>usr. findOne_email (users s) m = Some usr \<and> \<not> matchPassword e usr p)"
  shows "login e m p c s =
     (Response 401 (Message ''Invalid email or password''), called (User_findOne m) s)"
  using assms by (auto simp add: login_def Let_def)

text \<open>
  C5. A login that finds no account for the email and a login that finds an account whose
  password does not match answer with the same response: status 401 and the body
  \<^verbatim>\<open>{ message: 'Invalid email or password' }\<close>.
\<close>

theorem login_failure_indistinguishable:
  assumes "m \<noteq> []" "p \<noteq> []" "m' \<noteq> []" "p' \<noteq> []"
    and "findOne_email (users s) m = None"
    and "findOne_email (users s') m' = Some usr" "\<not> matchPassword e' usr p'"
  shows "fst (login e m p c s) = fst (login e' m' p' c' s')
     \<and> fst (login e m p c s) = Response 401 (Message ''Invalid email or password'')"
proof -
  from assms have a: "login e m p c s =
     (Response 401 (Message ''Invalid email or password''), called (User_findOne m) s)"
    by (intro login_rejects_credentials) simp_all
  from assms have b: "login e' m' p' c' s' =
     (Response 401 (Message ''Invalid email or password''), called (User_findOne m') s')"
    by (intro login_rejects_credentials) simp_all
  from a b show ?thesis by simp
qed

lemma sample_lookup: "findOne_email (users (sample_db docs)) ''alice@example.com'' = Some alice"
  by (simp add: sample_db_def findOne_email_def alice_def)

lemma sample_lookup_none: "findOne_email (users (sample_db docs)) ''nobody@example.com'' = None"
  by (simp add: sample_db_def findOne_email_def alice_def root_def)

theorem login_failure_indistinguishable_witness:
  "findOne_email (users (sample_db [])) ''nobody@example.com'' = None
   \<and> findOne_email (users (sample_db [])) ''alice@example.com'' = Some alice
   \<and> \<not> matchPassword sample_env alice ''guess''
   \<and> fst (login sample_env ''nobody@example.com'' ''pw1'' [] (sample_db []))
       = fst (login sample_env ''alice@example.com'' ''guess'' [] (sample_db []))"
proof -
  have h1: "findOne_email (users (sample_db [])) ''nobody@example.com'' = None"
    by (rule sample_lookup_none)
  have h2: "findOne_email (users (sample_db [])) ''alice@example.com'' = Some alice"
    by (rule sample_lookup)
  have h3: "\<not> matchPassword sample_env alice ''guess''"
    by (simp add: sample_env_def alice_def)
  have "fst (login sample_env ''nobody@example.com'' ''pw1'' [] (sample_db []))
       = fst (login sample_env ''alice@example.com'' ''guess'' [] (sample_db []))"
    using login_failure_indistinguishable [OF _ _ _ _ h1 h2 h3, of "''pw1''" sample_env "[]" "[]"]
    by simp
  with h1 h2 h3 show ?thesis by simp
qed

text \<open>
  C9, as the code has it. A login whose email or password is missing (absent or empty) is
  answered with 400 before any store operation: the state, the list of awaited calls
  included, is the one the handler was given. The form of a non-empty email or password
  is not checked.
\<close>

theorem login_missing_field_rejected_first:
  assumes "m = [] \<or> p = []"
  shows "login e m p c s = (Response 400 (Message ''Please provide email and password''), s)
     \<and> calls (snd (login e m p c s)) = calls s"
  using assms by (simp add: login_rejects_input)

theorem login_missing_field_rejected_first_witness:
  "login sample_env ''alice@example.com'' [] [] (sample_db [])
     = (Response 400 (Message ''Please provide email and password''), sample_db [])
   \<and> calls (snd (login sample_env ''alice@example.com'' [] [] (sample_db []))) = []"
  using login_missing_field_rejected_first [of "''alice@example.com''" "[]" sample_env "[]" "sample_db []"]
  by (simp add: sample_db_def)

text \<open>
  C9 as stated fails for a malformed email: \<^verbatim>\<open>not-an-email\<close> has no \<^verbatim>\<open>@\<close>, yet the
  handler looks it up in the account store and answers 401, not 400.
\<close>

theorem login_malformed_email_counterexample:
  "fst (login sample_env ''not-an-email'' ''pw1'' [] (sample_db []))
     = Response 401 (Message ''Invalid email or password'')
   \<and> status (fst (login sample_env ''not-an-email'' ''pw1'' [] (sample_db []))) \<noteq> 400
   \<and> calls (snd (login sample_env ''not-an-email'' ''pw1'' [] (sample_db [])))
     = [User_findOne ''not-an-email'']"
proof -
  have "findOne_email (users (sample_db [])) ''not-an-email'' = None"
    by (simp add: sample_db_def findOne_email_def alice_def root_def)
  then have "login sample_env ''not-an-email'' ''pw1'' [] (sample_db []) =
     (Response 401 (Message ''Invalid email or password''),
      called (User_findOne ''not-an-email'') (sample_db []))"
    by (intro login_rejects_credentials) simp_all
  then show ?thesis by (simp add: called_def sample_db_def)
qed

text \<open>
  C10. When the account has 2FA enabled and the supplied code matches no unused, unexpired
  record, the login handler answers 400 and leaves the accounts (so \<^verbatim>\<open>lastLogin\<close>) and
  the code records as they were; the response carries no token, and the handler awaited
  only the two lookups.
\<close>

theorem login_failed_code_changes_nothing:
  assumes "m \<noteq> []" "p \<noteq> []" "findOne_email (users s) m = Some usr" "matchPassword e usr p"
    "twoFactorEnabled usr" "c \<noteq> []"
    "TwoFactorAuth_findOne (uid usr) c login_code (clock e) (twoFactorAuths s) = None"
  shows "fst (login e m p c s) = Response 400 (Message ''Invalid or expired verification code'')
     \<and> users (snd (login e m p c s)) = users s
     \<and> twoFactorAuths (snd (login e m p c s)) = twoFactorAuths s
     \<and> token_of (fst (login e m p c s)) = None
     \<and> calls (snd (login e m p c s))
         = calls s @ [User_findOne m, TwoFactorAuth_findOne_call (uid usr) c login_code]"
  by (simp add: login_rejects_code [OF assms] called_def token_of_def)

theorem login_failed_code_changes_nothing_witness:
  "findOne_email (users (sample_db [alice_code 5000 False])) ''alice@example.com'' = Some alice
   \<and> matchPassword sample_env alice ''pw1'' \<and> twoFactorEnabled alice
   \<and> TwoFactorAuth_findOne (uid alice) ''654321'' login_code (clock sample_env)
        (twoFactorAuths (sample_db [alice_code 5000 False])) = None
   \<and> fst (login sample_env ''alice@example.com'' ''pw1'' ''654321'' (sample_db [alice_code 5000 False]))
       = Response 400 (Message ''Invalid or expired verification code'')
   \<and> users (snd (login sample_env ''alice@example.com'' ''pw1'' ''654321''
        (sample_db [alice_code 5000 False]))) = [alice, root]
   \<and> twoFactorAuths (snd (login sample_env ''alice@example.com'' ''pw1'' ''654321''
        (sample_db [alice_code 5000 False]))) = [alice_code 5000 False]"
proof -
  let ?s = "sample_db [alice_code 5000 False]"
  have h1: "findOne_email (users ?s) ''alice@example.com'' = Some alice"
    by (rule sample_lookup)
  have h2: "matchPassword sample_env alice ''pw1''"
    by (simp add: sample_env_def alice_def)
  have h3: "twoFactorEnabled alice"
    by (simp add: alice_def)
  have h4: "TwoFactorAuth_findOne (uid alice) ''654321'' login_code (clock sample_env)
        (twoFactorAuths ?s) = None"
    by (simp add: TwoFactorAuth_findOne_def matches_query_def sample_db_def alice_code_def)
  have u: "users ?s = [alice, root]" "twoFactorAuths ?s = [alice_code 5000 False]"
    by (simp_all add: sample_db_def)
  from login_failed_code_changes_nothing [OF _ _ h1 h2 h3 _ h4] h1 h2 h3 h4 u
  show ?thesis by simp
qed

subsection \<open>Self-protection in user administration\<close>

lemma requireRole_admin:
  "requireRole (Role ''admin'') (Some ru) us =
     (case findById us (uid ru) of
        None \<Rightarrow> Some (Response 401 (Message ''User not found''))
      | Some usr \<Rightarrow>
          if role usr = ''admin'' then None
          else Some (Response 403
                 (InsufficientRole ''Insufficient role permissions'' [''admin''] (role usr))))"
  by (simp add: requireRole_def split: option.splits)

text \<open>
  What the two guards do achieve: a request whose path id is spelled exactly as the
  requester's \<^verbatim>\<open>_id.toString()\<close> is rejected and the accounts stay as they were.
\<close>

lemma put_role_exact_id_rejected:
  assumes "r \<noteq> []" "r \<noteq> ''admin''"
  shows "snd (put_role (uid ru) (Some ru) r ps us) = us
     \<and> status (fst (put_role (uid ru) (Some ru) r ps us)) \<in> {400, 401, 403}"
  using assms
  by (simp add: put_role_def requireRole_admin put_role_handler_def split: option.splits)

lemma delete_exact_id_rejected:
  "snd (delete_user (uid ru) (Some ru) us) = us
     \<and> status (fst (delete_user (uid ru) (Some ru) us)) \<in> {400, 401, 403}"
  by (simp add: delete_user_def requireRole_admin delete_user_handler_def split: option.splits)

lemma chef_upper_case_id: "castObjectId ''64B0C0FFEE00000000000AD0'' = Some (uid chef)"
  by (simp add: castObjectId_def hex_digits_def lower_hex_def chef_def)

lemma chef_requester: "findById [alice, chef] (uid chef) = Some chef"
  by (simp add: findById_def alice_def chef_def)

text \<open>
  C8 fails on the code. The admin whose id is \<^verbatim>\<open>64b0c0ffee00000000000ad0\<close> sends their own
  id in upper case. The string comparison of the guard finds the two spellings different,
  the store casts the path id to the same ObjectId, and so the role update to
  \<^verbatim>\<open>user\<close> is answered 200 and demotes the requester, and the delete is answered 200 and
  removes the requester's account.
\<close>

theorem self_protection_bypassed_by_id_case:
  "role chef = ''admin''
   \<and> put_role ''64B0C0FFEE00000000000AD0'' (Some chef) ''user'' None [alice, chef]
       = (Response 200 (UserDoc (select_no_password (chef\<lparr>role := ''user''\<rparr>))),
          [alice, chef\<lparr>role := ''user''\<rparr>])
   \<and> delete_user ''64B0C0FFEE00000000000AD0'' (Some chef) [alice, chef]
       = (Response 200 (Message ''User deleted successfully''), [alice])"
proof -
  have ad: "role chef = ''admin''" by (simp add: chef_def)
  have guard: "''64B0C0FFEE00000000000AD0'' \<noteq> uid chef" by (simp add: chef_def)
  have other: "uid alice \<noteq> uid chef" by (simp add: alice_def chef_def)
  have valid: "''user'' \<in> set validRoles" by (simp add: validRoles_def)
  have p: "put_role ''64B0C0FFEE00000000000AD0'' (Some chef) ''user'' None [alice, chef]
       = (Response 200 (UserDoc (select_no_password (chef\<lparr>role := ''user''\<rparr>))),
          [alice, chef\<lparr>role := ''user''\<rparr>])"
    using ad guard other valid
    by (simp add: put_role_def requireRole_admin chef_requester put_role_handler_def
        chef_upper_case_id Let_def)
  have d: "delete_user ''64B0C0FFEE00000000000AD0'' (Some chef) [alice, chef]
       = (Response 200 (Message ''User deleted successfully''), [alice])"
    using ad guard other
    by (simp add: delete_user_def requireRole_admin chef_requester delete_user_handler_def
        chef_upper_case_id)
  from ad p d show ?thesis by simp
qed

subsection \<open>Expiry of one-time codes\<close>

lemma called_simps:
  "users (called k s) = users s" "twoFactorAuths (called k s) = twoFactorAuths s"
  "calls (called k s) = calls s @ [k]"
  by (simp_all add: called_def)

lemma findOne_None_iff:
  "TwoFactorAuth_findOne u c t tm docs = None \<longleftrightarrow> (\<forall>r\<in>set docs. \<not> matches_query u c t tm r)"
  by (simp add: TwoFactorAuth_findOne_def find_index_None)

lemma findOne_Some:
  "TwoFactorAuth_findOne u c t tm docs = Some i \<Longrightarrow> i < length docs \<and> matches_query u c t tm (docs ! i)"
  unfolding TwoFactorAuth_findOne_def by (rule find_index_Some)

lemma expired_no_match: "expiresAt r \<le> tm \<Longrightarrow> \<not> matches_query u c t tm r"
  by (simp add: matches_query_def)

lemma all_expired_findOne:
  assumes "\<forall>r\<in>set docs. user r = u \<and> code r = c \<and> type r = t \<longrightarrow> expiresAt r \<le> tm"
  shows "TwoFactorAuth_findOne u c t tm docs = None"
  unfolding findOne_None_iff using assms by (auto simp add: matches_query_def)

lemma toggle_rejects_code:
  assumes "c \<noteq> []" "TwoFactorAuth_findOne (uid ru) c t (clock e) (twoFactorAuths s) = None"
  shows "toggle_2fa t flag done e ru c s =
     (Response 400 (Message ''Invalid or expired verification code''),
      called (TwoFactorAuth_findOne_call (uid ru) c t) s)"
  using assms by (simp add: toggle_2fa_def Let_def)

lemma issue_code_docs:
  "twoFactorAuths (snd (issue_code e usr t ok s)) = twoFactorAuths s @
     [\<lparr>user = uid usr, code = generateTwoFactorCode (entropy e), expiresAt = clock e + 600000,
       isUsed = False, type = t\<rparr>]"
  by (simp add: issue_code_def Let_def called_simps TwoFactorAuth_create_def)

lemma login_issues_code:
  assumes "m \<noteq> []" "p \<noteq> []" "findOne_email (users s) m = Some usr" "matchPassword e usr p"
    "twoFactorEnabled usr"
  shows "login e m p [] s =
     issue_code e usr login_code
       (RequiresTwoFactor ''Two-factor authentication code sent to your email'')
       (called (User_findOne m) s)"
  using assms by (simp add: login_def Let_def)

text \<open>
  C4. A record whose \<^verbatim>\<open>expiresAt\<close> is not later than the current time never satisfies
  the lookup filter, whatever its \<^verbatim>\<open>isUsed\<close> flag. So when every record stored for the
  submitted account, code and flow type has expired, login and the two 2FA toggles answer
  400 with the invalid-or-expired message and change neither collection. A record a flow
  creates has \<^verbatim>\<open>expiresAt\<close> equal to the creation time plus 600000 ms (10 minutes) and
  \<^verbatim>\<open>isUsed = false\<close>.
\<close>

theorem expired_code_rejected:
  "(expiresAt r \<le> tm \<longrightarrow> \<not> matches_query u c t tm r)
   \<and> ((\<forall>r\<in>set (twoFactorAuths s). user r = uid usr \<and> code r = c \<and> type r = login_code
          \<longrightarrow> expiresAt r \<le> clock e)
       \<and> m \<noteq> [] \<and> p \<noteq> [] \<and> c \<noteq> [] \<and> findOne_email (users s) m = Some usr
       \<and> matchPassword e usr p \<and> twoFactorEnabled usr
      \<longrightarrow> fst (login e m p c s) = Response 400 (Message ''Invalid or expired verification code'')
          \<and> users (snd (login e m p c s)) = users s
          \<and> twoFactorAuths (snd (login e m p c s)) = twoFactorAuths s)
   \<and> ((\<forall>r\<in>set (twoFactorAuths s). user r = uid usr \<and> code r = c \<and> type r = t
          \<longrightarrow> expiresAt r \<le> clock e) \<and> c \<noteq> []
      \<longrightarrow> fst (toggle_2fa t flag done e usr c s)
            = Response 400 (Message ''Invalid or expired verification code'')
          \<and> users (snd (toggle_2fa t flag done e usr c s)) = users s
          \<and> twoFactorAuths (snd (toggle_2fa t flag done e usr c s)) = twoFactorAuths s)
   \<and> (m \<noteq> [] \<and> p \<noteq> [] \<and> findOne_email (users s) m = Some usr
       \<and> matchPassword e usr p \<and> twoFactorEnabled usr
      \<longrightarrow> twoFactorAuths (snd (login e m p [] s)) = twoFactorAuths s @
            [\<lparr>user = uid usr, code = generateTwoFactorCode (entropy e),
              expiresAt = clock e + 600000, isUsed = False, type = login_code\<rparr>])
   \<and> twoFactorAuths (snd (toggle_2fa t flag done e usr [] s)) = twoFactorAuths s @
        [\<lparr>user = uid usr, code = generateTwoFactorCode (entropy e),
          expiresAt = clock e + 600000, isUsed = False, type = t\<rparr>]"
proof -
  have a: "expiresAt r \<le> tm \<longrightarrow> \<not> matches_query u c t tm r"
    by (simp add: expired_no_match)
  have b: "(\<forall>r\<in>set (twoFactorAuths s). user r = uid usr \<and> code r = c \<and> type r = login_code
          \<longrightarrow> expiresAt r \<le> clock e)
       \<and> m \<noteq> [] \<and> p \<noteq> [] \<and> c \<noteq> [] \<and> findOne_email (users s) m = Some usr
       \<and> matchPassword e usr p \<and> twoFactorEnabled usr
      \<longrightarrow> fst (login e m p c s) = Response 400 (Message ''Invalid or expired verification code'')
          \<and> users (snd (login e m p c s)) = users s
          \<and> twoFactorAuths (snd (login e m p c s)) = twoFactorAuths s"
  proof
    assume h: "(\<forall>r\<in>set (twoFactorAuths s). user r = uid usr \<and> code r = c \<and> type r = login_code
          \<longrightarrow> expiresAt r \<le> clock e)
       \<and> m \<noteq> [] \<and> p \<noteq> [] \<and> c \<noteq> [] \<and> findOne_email (users s) m = Some usr
       \<and> matchPassword e usr p \<and> twoFactorEnabled usr"
    then have none: "TwoFactorAuth_findOne (uid usr) c login_code (clock e) (twoFactorAuths s) = None"
      by (intro all_expired_findOne) blast
    from h have "login e m p c s =
       (Response 400 (Message ''Invalid or expired verification code''),
        called (TwoFactorAuth_findOne_call (uid usr) c login_code) (called (User_findOne m) s))"
      by (intro login_rejects_code none) simp_all
    then show "fst (login e m p c s) = Response 400 (Message ''Invalid or expired verification code'')
          \<and> users (snd (login e m p c s)) = users s
          \<and> twoFactorAuths (snd (login e m p c s)) = twoFactorAuths s"
      by (simp add: called_simps)
  qed
  have c: "(\<forall>r\<in>set (twoFactorAuths s). user r = uid usr \<and> code r = c \<and> type r = t
          \<longrightarrow> expiresAt r \<le> clock e) \<and> c \<noteq> []
      \<longrightarrow> fst (toggle_2fa t flag done e usr c s)
            = Response 400 (Message ''Invalid or expired verification code'')
          \<and> users (snd (toggle_2fa t flag done e usr c s)) = users s
          \<and> twoFactorAuths (snd (toggle_2fa t flag done e usr c s)) = twoFactorAuths s"
  proof
    assume h: "(\<forall>r\<in>set (twoFactorAuths s). user r = uid usr \<and> code r = c \<and> type r = t
          \<longrightarrow> expiresAt r \<le> clock e) \<and> c \<noteq> []"
    then have none: "TwoFactorAuth_findOne (uid usr) c t (clock e) (twoFactorAuths s) = None"
      by (intro all_expired_findOne) blast
    from h have "toggle_2fa t flag done e usr c s =
       (Response 400 (Message ''Invalid or expired verification code''),
        called (TwoFactorAuth_findOne_call (uid usr) c t) s)"
      by (intro toggle_rejects_code none) simp
    then show "fst (toggle_2fa t flag done e usr c s)
            = Response 400 (Message ''Invalid or expired verification code'')
          \<and> users (snd (toggle_2fa t flag done e usr c s)) = users s
          \<and> twoFactorAuths (snd (toggle_2fa t flag done e usr c s)) = twoFactorAuths s"
      by (simp add: called_simps)
  qed
  have d: "m \<noteq> [] \<and> p \<noteq> [] \<and> findOne_email (users s) m = Some usr
       \<and> matchPassword e usr p \<and> twoFactorEnabled usr
      \<longrightarrow> twoFactorAuths (snd (login e m p [] s)) = twoFactorAuths s @
            [\<lparr>user = uid usr, code = generateTwoFactorCode (entropy e),
              expiresAt = clock e + 600000, isUsed = False, type = login_code\<rparr>]"
    by (simp add: login_issues_code issue_code_docs called_simps)
  have e: "twoFactorAuths (snd (toggle_2fa t flag done e usr [] s)) = twoFactorAuths s @
        [\<lparr>user = uid usr, code = generateTwoFactorCode (entropy e),
          expiresAt = clock e + 600000, isUsed = False, type = t\<rparr>]"
    by (simp add: toggle_2fa_def issue_code_docs)
  from a b c d e show ?thesis by blast
qed

lemma sample_code_123456: "generateTwoFactorCode 23456 = ''123456''"
  by (simp add: generateTwoFactorCode_def randomInt_def toString.simps digit_char_def)

theorem expired_code_rejected_witness:
  "twoFactorAuths (sample_db [alice_code 1000 False]) = [alice_code 1000 False]
   \<and> expiresAt (alice_code 1000 False) \<le> clock sample_env
   \<and> findOne_email (users (sample_db [alice_code 1000 False])) ''alice@example.com'' = Some alice
   \<and> matchPassword sample_env alice ''pw1'' \<and> twoFactorEnabled alice
   \<and> fst (login sample_env ''alice@example.com'' ''pw1'' ''123456'' (sample_db [alice_code 1000 False]))
       = Response 400 (Message ''Invalid or expired verification code'')
   \<and> twoFactorAuths (snd (login sample_env ''alice@example.com'' ''pw1'' []
        (sample_db [alice_code 1000 False])))
       = [alice_code 1000 False, alice_code 601000 False]"
proof -
  let ?s = "sample_db [alice_code 1000 False]"
  have h0: "\<forall>r\<in>set (twoFactorAuths ?s).
       user r = uid alice \<and> code r = ''123456'' \<and> type r = login_code
       \<longrightarrow> expiresAt r \<le> clock sample_env"
    by (simp add: sample_db_def alice_code_def sample_env_def)
  have h1: "findOne_email (users ?s) ''alice@example.com'' = Some alice"
    by (rule sample_lookup)
  have h2: "matchPassword sample_env alice ''pw1''"
    by (simp add: sample_env_def alice_def)
  have h3: "twoFactorEnabled alice"
    by (simp add: alice_def)
  have ne: "''alice@example.com'' \<noteq> []" "''pw1'' \<noteq> []" "''123456'' \<noteq> []" by simp_all
  note t = expired_code_rejected [where s = ?s and usr = alice and c = "''123456''"
      and e = sample_env and m = "''alice@example.com''" and p = "''pw1''"]
  from t h0 h1 h2 h3 ne
  have r1: "fst (login sample_env ''alice@example.com'' ''pw1'' ''123456'' ?s)
       = Response 400 (Message ''Invalid or expired verification code'')"
    by blast
  from t h1 h2 h3 ne
  have "twoFactorAuths (snd (login sample_env ''alice@example.com'' ''pw1'' [] ?s))
     = twoFactorAuths ?s @
            [\<lparr>user = uid alice, code = generateTwoFactorCode (entropy sample_env),
              expiresAt = clock sample_env + 600000, isUsed = False, type = login_code\<rparr>]"
    by blast
  then have r2: "twoFactorAuths (snd (login sample_env ''alice@example.com'' ''pw1'' [] ?s))
       = [alice_code 1000 False, alice_code 601000 False]"
    by (simp add: sample_code_123456 sample_db_def alice_code_def alice_def sample_env_def)
  have h4: "twoFactorAuths ?s = [alice_code 1000 False]"
      "expiresAt (alice_code 1000 False) \<le> clock sample_env"
    by (simp_all add: sample_db_def alice_code_def sample_env_def)
  from h1 h2 h3 h4 r1 r2 show ?thesis by blast
qed

subsection \<open>Single use of one-time codes\<close>

lemma save_isUsed_length: "length (save_isUsed i docs) = length docs"
  by (simp add: save_isUsed_def)

lemma save_isUsed_used: "i < length docs \<Longrightarrow> used_at i (save_isUsed i docs)"
  by (simp add: save_isUsed_def used_at_def)


lemma save_isUsed_other: "j \<noteq> i \<Longrightarrow> save_isUsed i docs ! j = docs ! j"
  by (simp add: save_isUsed_def)







lemma used_never_found: "used_at k docs \<Longrightarrow> TwoFactorAuth_findOne u c t tm docs \<noteq> Some k"
proof
  assume u: "used_at k docs" and f: "TwoFactorAuth_findOne u c t tm docs = Some k"
  from findOne_Some [OF f] have "\<not> isUsed (docs ! k)" by (simp add: matches_query_def)
  with u show False by (simp add: used_at_def)
qed

lemma only_used_matches_findOne:
  assumes "used_at i docs"
    and "\<forall>j<length docs. j \<noteq> i \<longrightarrow> \<not> matches_query u c t tm (docs ! j)"
  shows "TwoFactorAuth_findOne u c t tm docs = None"
proof (cases "TwoFactorAuth_findOne u c t tm docs")
  case None
  then show ?thesis .
next
  case (Some j)
  from findOne_Some [OF Some] have j: "j < length docs" "matches_query u c t tm (docs ! j)"
    by simp_all
  from used_never_found [OF assms(1)] Some have "j \<noteq> i" by auto
  with assms(2) j show ?thesis by blast
qed

lemma login_verifies_code:
  assumes "m \<noteq> []" "p \<noteq> []" "findOne_email (users s) m = Some usr" "matchPassword e usr p"
    "twoFactorEnabled usr" "c \<noteq> []"
    "TwoFactorAuth_findOne (uid usr) c login_code (clock e) (twoFactorAuths s) = Some i"
  shows "fst (login e m p c s) =
       Response 200 (Session (uid usr) (name usr) (email usr) (role usr) (permissions usr)
         (twoFactorEnabled usr) (generateToken e (uid usr)))"
    and "twoFactorAuths (snd (login e m p c s)) = save_isUsed i (twoFactorAuths s)"
    and "users (snd (login e m p c s))
           = findByIdAndUpdate (uid usr) (\<lambda>u. u\<lparr>lastLogin := Some (clock e)\<rparr>) (users s)"
  using assms by (simp_all add: login_def Let_def called_simps)















subsection \<open>Two verifications of one code\<close>

text \<open>A request served alone runs the two steps of the machine back to back.\<close>

lemma attempt_alone:
  "interleave u c t [(True, tm), (True, tm)] (Lookup, a2, docs) =
     (case TwoFactorAuth_findOne u c t tm docs of
        None \<Rightarrow> (Rejected, a2, docs)
      | Some i \<Rightarrow> (Verified, a2, save_isUsed i docs))"
  by (simp split: option.splits)

lemma login_runs_attempt:
  assumes "m \<noteq> []" "p \<noteq> []" "findOne_email (users s) m = Some usr" "matchPassword e usr p"
    "twoFactorEnabled usr" "c \<noteq> []"
  shows "interleave (uid usr) c login_code [(True, clock e), (True, clock e)]
           (Lookup, a2, twoFactorAuths s)
     = (if status (fst (login e m p c s)) = 200 then Verified else Rejected, a2,
        twoFactorAuths (snd (login e m p c s)))"
proof (cases "TwoFactorAuth_findOne (uid usr) c login_code (clock e) (twoFactorAuths s)")
  case None
  with login_rejects_code [OF assms None] show ?thesis
    by (simp add: attempt_alone called_simps)
next
  case (Some i)
  with login_verifies_code [OF assms Some] show ?thesis
    by (simp add: attempt_alone)
qed

lemma toggle_runs_attempt:
  assumes "c \<noteq> []"
  shows "interleave (uid ru) c t [(True, clock e), (True, clock e)]
           (Lookup, a2, twoFactorAuths s)
     = (if status (fst (toggle_2fa t flag done e ru c s)) = 200 then Verified else Rejected, a2,
        twoFactorAuths (snd (toggle_2fa t flag done e ru c s)))"
  using assms
  by (simp add: attempt_alone toggle_2fa_def Let_def called_simps split: option.splits)

text \<open>
  C2, as the code has it. The lookup and the write are two steps: after the lookup
  alone the record is found and the collection is as before. When one record is a valid
  match and the two verifications run one after the other, in either order, the one that
  runs first is verified and the other is rejected.
\<close>

theorem serial_verifications_exactly_one:
  assumes "TwoFactorAuth_findOne u c t t1 docs = Some i"
    and "\<forall>j<length docs. j \<noteq> i \<longrightarrow> \<not> matches_query u c t t3 (docs ! j)"
  shows "interleave u c t [(True, t1)] (Lookup, Lookup, docs) = (Found i, Lookup, docs)
     \<and> interleave u c t [(True, t1), (True, t2), (False, t3), (False, t4)] (Lookup, Lookup, docs)
         = (Verified, Rejected, save_isUsed i docs)
     \<and> interleave u c t [(False, t1), (False, t2), (True, t3), (True, t4)] (Lookup, Lookup, docs)
         = (Rejected, Verified, save_isUsed i docs)"
proof -
  from findOne_Some [OF assms(1)] have i: "i < length docs" by simp
  then have used: "used_at i (save_isUsed i docs)" by (rule save_isUsed_used)
  from assms(2) have "\<forall>j<length (save_isUsed i docs). j \<noteq> i \<longrightarrow>
      \<not> matches_query u c t t3 (save_isUsed i docs ! j)"
    by (simp add: save_isUsed_length save_isUsed_other)
  with used have none: "TwoFactorAuth_findOne u c t t3 (save_isUsed i docs) = None"
    by (rule only_used_matches_findOne)
  from assms(1) none show ?thesis by simp
qed

theorem serial_verifications_exactly_one_witness:
  "TwoFactorAuth_findOne ''a1'' ''123456'' login_code 1000 [alice_code 5000 False] = Some 0
   \<and> interleave ''a1'' ''123456'' login_code [(True, 1000), (True, 1001), (False, 1002), (False, 1003)]
        (Lookup, Lookup, [alice_code 5000 False])
       = (Verified, Rejected, [alice_code 5000 True])"
proof -
  have h: "TwoFactorAuth_findOne ''a1'' ''123456'' login_code 1000 [alice_code 5000 False] = Some 0"
    by (simp add: TwoFactorAuth_findOne_def matches_query_def alice_code_def)
  have o: "\<forall>j<length [alice_code 5000 False]. j \<noteq> 0 \<longrightarrow>
      \<not> matches_query ''a1'' ''123456'' login_code 1002 ([alice_code 5000 False] ! j)"
    by simp
  have sv: "save_isUsed 0 [alice_code 5000 False] = [alice_code 5000 True]"
    by (simp add: save_isUsed_def alice_code_def)
  from serial_verifications_exactly_one [OF h o, of 1001 1003] h sv show ?thesis by simp
qed

text \<open>
  C2 as stated fails: with one valid record, let both requests run their lookup before
  either runs its write. Both find the record unused, both write, both are verified.
\<close>

theorem concurrent_verifications_counterexample:
  "interleave ''a1'' ''123456'' login_code [(True, 1000), (False, 1000), (True, 1001), (False, 1001)]
     (Lookup, Lookup, [alice_code 5000 False])
   = (Verified, Verified, [alice_code 5000 True])"
  by (simp add: TwoFactorAuth_findOne_def matches_query_def alice_code_def save_isUsed_def)

end
